theory Spec2Isabelle
  imports Main
begin

section \<open>Errors\<close>

text \<open>
  The exceptions the modelled code raises, as values. \<open>SignatureExpired\<close> and
  \<open>BadSignature\<close> are the two exceptions of the token serializer that
  \<open>views.py\<close> imports, and \<open>BadHeader\<close> is a third one of the serializer;
  \<open>MultipleResultsFound\<close> is what the ORM's \<open>scalar()\<close> raises on more than one row;
  \<open>TypeError\<close> is Python's own error for unpacking \<open>*None\<close> or for a wrong number of
  positional arguments.
\<close>

datatype error =
    UserNotFoundByIndexError
  | ChatNotFoundByIndexesError
  | ChatAlreadyExistsError
  | SignatureExpired
  | BadSignature
  | BadHeader
  | MultipleResultsFound
  | TypeError

text \<open>
  In the serializer's class hierarchy \<open>SignatureExpired\<close> and \<open>BadHeader\<close> are subclasses
  of \<open>BadSignature\<close>: this is what an \<open>except BadSignature\<close> clause catches.
\<close>

definition is_BadSignature :: "error \<Rightarrow> bool" where
  "is_BadSignature e \<longleftrightarrow> e = BadSignature \<or> e = BadHeader \<or> e = SignatureExpired"

section \<open>The chats table and its two memoized readers (app/authentication/models.py)\<close>

text \<open>
  A row of the \<open>chats\<close> table: \<open>chat_id\<close> (integer primary key), \<open>user1_id\<close>,
  \<open>user2_id\<close>. The table is the list of its rows in insertion order.
\<close>

record chat_row =
  chat_id :: int
  user1_id :: int
  user2_id :: int

text \<open>
  \<open>functools.lru_cache(maxsize=256)\<close>: the key is the tuple of the arguments as they
  were passed (not sorted), the entries are kept most recently used first, a hit moves
  its entry to the front, a stored result pushes the least recently used entry out once
  256 are held, and a call that raises stores nothing.
\<close>

type_synonym 'v lru = "((int \<times> int) \<times> 'v) list"

definition maxsize :: nat where
  "maxsize = 256"

definition lru_hit :: "int \<times> int \<Rightarrow> 'v \<Rightarrow> 'v lru \<Rightarrow> 'v lru" where
  "lru_hit k v c = (k, v) # filter (\<lambda>e. fst e \<noteq> k) c"

definition lru_store :: "int \<times> int \<Rightarrow> 'v \<Rightarrow> 'v lru \<Rightarrow> 'v lru" where
  "lru_store k v c = take maxsize ((k, v) # c)"

text \<open>
  The process state the four chat methods share: the table as \<open>db.session\<close> sees it
  (\<open>chats\<close>, with the writes of the open transaction), the table as of the last commit
  (\<open>committed\<close>), and the caches of \<open>User.is_chat_between\<close> and
  \<open>User.get_chat_id_by_users_ids\<close>. The methods read and write through the session and
  leave the commit to their caller (``db.session must be committed after executing the
  function'').
\<close>

record db_state =
  chats :: "chat_row list"
  committed :: "chat_row list"
  is_chat_between_cache :: "bool lru"
  get_chat_id_cache :: "int lru"

text \<open>The pair of user ids a row holds.\<close>

definition pair_of :: "chat_row \<Rightarrow> int \<times> int" where
  "pair_of r = (user1_id r, user2_id r)"

text \<open>
  The body of \<open>is_chat_between\<close> (what runs on a cache miss):
  \<open>user1_id, user2_id = sorted([user1_id, user2_id])\<close>, then
  \<open>EXISTS (SELECT ... WHERE user1_id = :u1 AND user2_id = :u2)\<close>.
\<close>

definition pair_rows :: "chat_row list \<Rightarrow> int \<Rightarrow> int \<Rightarrow> chat_row list" where
  "pair_rows rows a b =
     filter (\<lambda>r. user1_id r = min a b \<and> user2_id r = max a b) rows"

definition is_chat_between_query :: "chat_row list \<Rightarrow> int \<Rightarrow> int \<Rightarrow> bool" where
  "is_chat_between_query rows a b = (pair_rows rows a b \<noteq> [])"

text \<open>
  The body of \<open>get_chat_id_by_users_ids\<close>: the sorted pair is looked up with
  \<open>Query.scalar()\<close>, which gives \<open>None\<close> on no row, the first column of the row on one
  row, and raises on several; \<open>if not chat_id\<close> then raises for \<open>None\<close> and for 0.
\<close>

definition get_chat_id_query :: "chat_row list \<Rightarrow> int \<Rightarrow> int \<Rightarrow> error + int" where
  "get_chat_id_query rows a b =
     (case pair_rows rows a b of
        [] \<Rightarrow> Inl ChatNotFoundByIndexesError
      | [r] \<Rightarrow> if chat_id r = 0 then Inl ChatNotFoundByIndexesError else Inr (chat_id r)
      | _ \<Rightarrow> Inl MultipleResultsFound)"

definition is_chat_between :: "int \<Rightarrow> int \<Rightarrow> db_state \<Rightarrow> bool \<times> db_state" where
  "is_chat_between a b s =
     (case map_of (is_chat_between_cache s) (a, b) of
        Some v \<Rightarrow> (v, s\<lparr>is_chat_between_cache := lru_hit (a, b) v (is_chat_between_cache s)\<rparr>)
      | None \<Rightarrow>
          (let v = is_chat_between_query (chats s) a b
           in (v, s\<lparr>is_chat_between_cache := lru_store (a, b) v (is_chat_between_cache s)\<rparr>)))"

definition get_chat_id_by_users_ids ::
  "int \<Rightarrow> int \<Rightarrow> db_state \<Rightarrow> (error + int) \<times> db_state" where
  "get_chat_id_by_users_ids a b s =
     (case map_of (get_chat_id_cache s) (a, b) of
        Some v \<Rightarrow> (Inr v, s\<lparr>get_chat_id_cache := lru_hit (a, b) v (get_chat_id_cache s)\<rparr>)
      | None \<Rightarrow>
          (case get_chat_id_query (chats s) a b of
             Inl e \<Rightarrow> (Inl e, s)
           | Inr v \<Rightarrow>
               (Inr v, s\<lparr>get_chat_id_cache := lru_store (a, b) v (get_chat_id_cache s)\<rparr>)))"

text \<open>
  The id the database gives an inserted row: the column is an integer primary key
  without an explicit value, for which the engine of the tests (SQLite) takes 1 on an
  empty table and the largest id in use plus one otherwise
  (\<open>test_users_create_delete_chat\<close> reads the row \<open>(1, 1, 2)\<close> back, again after a delete).
\<close>

definition next_chat_id :: "chat_row list \<Rightarrow> int" where
  "next_chat_id rows =
     (case rows of [] \<Rightarrow> 1 | r # rs \<Rightarrow> fold max (map chat_id rs) (chat_id r) + 1)"

text \<open>
  \<open>create_chat\<close>: sorts the pair, asks the memoized \<open>is_chat_between\<close> with the sorted
  pair, and either inserts the row and clears the cache of \<open>is_chat_between\<close> (only that
  one), or raises \<open>ChatAlreadyExistsError\<close>.
\<close>

definition create_chat :: "int \<Rightarrow> int \<Rightarrow> db_state \<Rightarrow> (error + unit) \<times> db_state" where
  "create_chat a b s =
     (let u1 = min a b; u2 = max a b;
          (found, s1) = is_chat_between u1 u2 s
      in if \<not> found
         then (Inr (),
               s1\<lparr>chats := chats s1 @
                      [\<lparr>chat_id = next_chat_id (chats s1), user1_id = u1, user2_id = u2\<rparr>],
                   is_chat_between_cache := []\<rparr>)
         else (Inl ChatAlreadyExistsError, s1))"

text \<open>
  \<open>delete_chat(two_users_ids=None, chat_id=None)\<close>:
  \<open>chat_id = chat_id or User.get_chat_id_by_users_ids(*two_users_ids)\<close>. Python's \<open>or\<close>
  takes the right operand when \<open>chat_id\<close> is \<open>None\<close> or 0; unpacking \<open>None\<close>, or a list
  that is not of two elements, raises \<open>TypeError\<close>. Then the rows with that id are
  deleted and both caches are cleared.
\<close>

definition truthy :: "int option \<Rightarrow> bool" where
  "truthy x = (case x of None \<Rightarrow> False | Some c \<Rightarrow> c \<noteq> 0)"

definition resolve_chat_id ::
  "int list option \<Rightarrow> int option \<Rightarrow> db_state \<Rightarrow> (error + int) \<times> db_state" where
  "resolve_chat_id two_users_ids cid s =
     (if truthy cid then (Inr (the cid), s)
      else (case two_users_ids of
              Some [a, b] \<Rightarrow> get_chat_id_by_users_ids a b s
            | _ \<Rightarrow> (Inl TypeError, s)))"

definition delete_chat ::
  "int list option \<Rightarrow> int option \<Rightarrow> db_state \<Rightarrow> (error + unit) \<times> db_state" where
  "delete_chat two_users_ids cid s =
     (case resolve_chat_id two_users_ids cid s of
        (Inl e, s1) \<Rightarrow> (Inl e, s1)
      | (Inr c, s1) \<Rightarrow>
          (Inr (),
           s1\<lparr>chats := filter (\<lambda>r. chat_id r \<noteq> c) (chats s1),
              is_chat_between_cache := [],
              get_chat_id_cache := []\<rparr>))"

text \<open>
  \<open>db.session.commit()\<close> makes the writes of the session the committed table;
  \<open>db.session.rollback()\<close>, and the removal of a session with writes that were not
  committed, puts the session back on the committed table. Neither touches the caches,
  which belong to the process and not to the session.
\<close>

definition commit :: "db_state \<Rightarrow> db_state" where
  "commit s = s\<lparr>committed := chats s\<rparr>"

definition rollback :: "db_state \<Rightarrow> db_state" where
  "rollback s = s\<lparr>chats := committed s\<rparr>"

text \<open>
  The states the process can be in: it starts on some committed table with both caches
  empty (\<open>boot\<close>), and then any sequence of calls of the four methods, commits and
  rollbacks runs, each call leaving the state it leaves whether it returned or raised.
\<close>

definition boot :: "chat_row list \<Rightarrow> db_state" where
  "boot rows =
     \<lparr>chats = rows, committed = rows, is_chat_between_cache = [], get_chat_id_cache = []\<rparr>"

datatype call =
    IsChatBetween int int
  | GetChatIdByUsersIds int int
  | CreateChat int int
  | DeleteChat "int list option" "int option"
  | Commit
  | Rollback

fun perform :: "call \<Rightarrow> db_state \<Rightarrow> db_state" where
  "perform (IsChatBetween a b) s = snd (is_chat_between a b s)"
| "perform (GetChatIdByUsersIds a b) s = snd (get_chat_id_by_users_ids a b s)"
| "perform (CreateChat a b) s = snd (create_chat a b s)"
| "perform (DeleteChat p c) s = snd (delete_chat p c s)"
| "perform Commit s = commit s"
| "perform Rollback s = rollback s"

definition run :: "call list \<Rightarrow> db_state \<Rightarrow> db_state" where
  "run cs s = fold perform cs s"

text \<open>
  A state's caches agree with its table when every stored entry holds what the body of
  its function computes on the table now.
\<close>

definition caches_agree :: "db_state \<Rightarrow> bool" where
  "caches_agree s \<longleftrightarrow>
     list_all (\<lambda>((a, b), v). v = is_chat_between_query (chats s) a b) (is_chat_between_cache s) \<and>
     list_all (\<lambda>((a, b), v). get_chat_id_query (chats s) a b = Inr v) (get_chat_id_cache s)"


section \<open>Users (app/authentication/models.py)\<close>

text \<open>
  A row of the \<open>users\<close> table; \<open>name\<close> is the only nullable column. \<open>date_joined\<close> is
  a clock reading in seconds.
\<close>

record user =
  user_id :: int
  username :: string
  email :: string
  name :: "string option"
  password_hash :: string
  date_joined :: nat

text \<open>\<open>cls.query.get(user_id)\<close>: the row with that primary key, or \<open>None\<close>.\<close>

definition query_get :: "user list \<Rightarrow> int \<Rightarrow> user option" where
  "query_get table uid = find (\<lambda>u. user_id u = uid) table"

definition get_user_by_id :: "user list \<Rightarrow> int \<Rightarrow> error + user" where
  "get_user_by_id table uid =
     (case query_get table uid of
        None \<Rightarrow> Inl UserNotFoundByIndexError
      | Some u \<Rightarrow> Inr u)"

section \<open>Tokens\<close>

text \<open>
  The entries of \<open>current_app.config\<close> the token methods read. The configuration module
  is not among the sources, so the three values are parameters.
\<close>

record config =
  SECRET_KEY :: string
  PASSWORD_DEFAULT_EXPIRES_IN :: int
  AUTHENTICATION_TOKEN_DEFAULT_EXPIRES_IN :: int

text \<open>
  Modelled from the spec: the token serializer (\<open>TimedJSONWebSignatureSerializer\<close>, a
  library class that is not among the sources). The spec describes a token as a signed,
  time-stamped payload carrying a user id, verified against the application secret and
  the expiration window at verification time, where verification fails as Expired when
  the signature is valid and the timestamp is past the window, and as Invalid when the
  signature or the format is wrong.

  A well-formed token holds its content (issue time, expiry time, the user id of the
  payload) and a signature; anything else that can arrive as a token is \<open>Malformed\<close>.
  The signature is symbolic: signing a content under a key gives the pair of the two, so
  that a signature fits exactly the key and the content it was made for. The clock is
  read in whole seconds. As the library does, \<open>loads\<close> checks the signature first, then
  refuses an expiry time below 0 as a bad header, and only then compares the expiry time
  with the clock.
\<close>

record jws_content =
  header_iat :: nat
  header_exp :: int
  payload_user_id :: int

datatype token =
    JWS jws_content "string \<times> jws_content"
  | Malformed string

definition sign :: "string \<Rightarrow> jws_content \<Rightarrow> string \<times> jws_content" where
  "sign secret_key c = (secret_key, c)"

definition dumps :: "string \<Rightarrow> int \<Rightarrow> nat \<Rightarrow> int \<Rightarrow> token" where
  "dumps secret_key expires_in now uid =
     (let c = \<lparr>header_iat = now, header_exp = int now + expires_in, payload_user_id = uid\<rparr>
      in JWS c (sign secret_key c))"

definition loads :: "string \<Rightarrow> nat \<Rightarrow> token \<Rightarrow> error + int" where
  "loads secret_key now t =
     (case t of
        Malformed _ \<Rightarrow> Inl BadSignature
      | JWS c sg \<Rightarrow>
          if sg \<noteq> sign secret_key c then Inl BadSignature
          else if header_exp c < 0 then Inl BadHeader
          else if header_exp c < int now then Inl SignatureExpired
          else Inr (payload_user_id c))"

text \<open>
  What is left of an issued token \<open>t\<close> after damage: something that no longer parses, or
  a token other than \<open>t\<close> whose signature is not one made under the key of \<open>t\<close> for the
  content it now carries (damage does not sign). This covers a changed content under the
  old signature, the old content under a changed signature, and both changed.
\<close>

definition corrupted :: "token \<Rightarrow> token \<Rightarrow> bool" where
  "corrupted t t' =
     (case t' of
        Malformed _ \<Rightarrow> True
      | JWS c' sg' \<Rightarrow>
          (case t of
             Malformed _ \<Rightarrow> True
           | JWS c sg \<Rightarrow> (c', sg') \<noteq> (c, sg) \<and> sg' \<noteq> sign (fst sg) c'))"

text \<open>
  \<open>get_reset_password_token(self, expiration_period=None)\<close>: \<open>if not expiration_period\<close>
  takes the configured default for \<open>None\<close> and for 0; the token carries
  \<open>{'user_id': self.user_id}\<close>. The clock reading \<open>now\<close> is the time of the call.
\<close>

definition get_reset_password_token :: "config \<Rightarrow> user \<Rightarrow> int option \<Rightarrow> nat \<Rightarrow> token" where
  "get_reset_password_token cfg self expiration_period now =
     (let expiration_period =
            (if \<not> truthy expiration_period then PASSWORD_DEFAULT_EXPIRES_IN cfg
             else the expiration_period)
      in dumps (SECRET_KEY cfg) expiration_period now (user_id self))"

definition get_user_by_reset_password_token ::
  "config \<Rightarrow> user list \<Rightarrow> nat \<Rightarrow> token \<Rightarrow> error + user" where
  "get_user_by_reset_password_token cfg table now t =
     (case loads (SECRET_KEY cfg) now t of
        Inl e \<Rightarrow> Inl e
      | Inr uid \<Rightarrow> get_user_by_id table uid)"

definition get_authentication_token :: "config \<Rightarrow> user \<Rightarrow> int option \<Rightarrow> nat \<Rightarrow> token" where
  "get_authentication_token cfg self expires_in now =
     (let expires_in =
            (if \<not> truthy expires_in then AUTHENTICATION_TOKEN_DEFAULT_EXPIRES_IN cfg
             else the expires_in)
      in dumps (SECRET_KEY cfg) expires_in now (user_id self))"

definition get_user_by_authentication_token ::
  "config \<Rightarrow> user list \<Rightarrow> nat \<Rightarrow> token \<Rightarrow> error + user" where
  "get_user_by_authentication_token cfg table now t =
     (case loads (SECRET_KEY cfg) now t of
        Inl e \<Rightarrow> Inl e
      | Inr uid \<Rightarrow> get_user_by_id table uid)"

section \<open>Views (app/authentication/views.py)\<close>

text \<open>
  \<open>recognize_logged_in_user\<close>: the value it stores in \<open>g.user\<close>, or the exception that
  leaves it. The session maps a key to the integer stored under it.
\<close>

definition recognize_logged_in_user :: "user list \<Rightarrow> (string \<rightharpoonup> int) \<Rightarrow> error + user option" where
  "recognize_logged_in_user table session =
     (case session ''current_user_id'' of
        None \<Rightarrow> Inr None
      | Some current_user_id \<Rightarrow>
          (case get_user_by_id table current_user_id of
             Inl e \<Rightarrow> Inl e
           | Inr u \<Rightarrow> Inr (Some u)))"

text \<open>
  What a handler returns: a rendered template, a redirect to an endpoint, or the
  response of \<open>abort(code)\<close>. An exception that no handler catches leaves the view
  (\<open>Inl\<close> in the result of a view that can raise).
\<close>

datatype response =
    Rendered string
  | Redirected string
  | Aborted nat

text \<open>What the views change: the users table and the flashed messages.\<close>

record web_state =
  users_table :: "user list"
  flashed :: "string list"

definition flash :: "string \<Rightarrow> web_state \<Rightarrow> web_state" where
  "flash message ws = ws\<lparr>flashed := flashed ws @ [message]\<rparr>"

text \<open>
  The validators module and the password hashing of werkzeug are not among the sources.
  A validator returns the message of the \<open>ValidationError\<close> it raises, or \<open>None\<close> when it
  returns. \<open>validate_email\<close>, \<open>validate_length\<close>, the least password length with its
  message, and the hash function are parameters.
\<close>

record app_env =
  validate_email :: "string \<Rightarrow> string option"
  validate_length :: "string \<Rightarrow> nat \<Rightarrow> nat \<Rightarrow> string \<Rightarrow> string option"
  password_min_length :: nat
  password_length_message :: string
  generate_password_hash :: "string \<Rightarrow> string"

text \<open>
  Modelled from the spec: \<open>validate_equal_passwords\<close> (app/authentication/validators.py,
  not among the sources) rejects a password pair that is not equal; the message is the
  one \<open>test_client.py\<close> reads in the response.
\<close>

definition validate_equal_passwords :: "string \<Rightarrow> string \<Rightarrow> string option" where
  "validate_equal_passwords password1 password2 =
     (if password1 = password2 then None else Some ''Given passwords do not match'')"

text \<open>
  Modelled from the spec: \<open>validate_password_length\<close> (app/authentication/validators.py,
  not among the sources) rejects a password shorter than the minimum length.
\<close>

definition validate_password_length :: "app_env \<Rightarrow> string \<Rightarrow> string option" where
  "validate_password_length env password =
     (if length password < password_min_length env then Some (password_length_message env)
      else None)"

text \<open>The first \<open>ValidationError\<close> of the calls of a \<open>try\<close> block, in their order.\<close>

fun raised :: "string option list \<Rightarrow> string option" where
  "raised [] = None"
| "raised (None # rs) = raised rs"
| "raised (Some m # rs) = Some m"

record register_form =
  form_email :: string
  form_username :: string
  form_name :: string
  form_password1 :: string
  form_password2 :: string

text \<open>The id of an inserted user row, as for the chats table.\<close>

definition next_user_id :: "user list \<Rightarrow> int" where
  "next_user_id table =
     (case table of [] \<Rightarrow> 1 | u # us \<Rightarrow> fold max (map user_id us) (user_id u) + 1)"

text \<open>\<open>RegisterView.post\<close>; \<open>now\<close> is the clock reading that \<open>date_joined\<close> defaults to.\<close>

definition RegisterView_post ::
  "app_env \<Rightarrow> nat \<Rightarrow> register_form \<Rightarrow> web_state \<Rightarrow> response \<times> web_state" where
  "RegisterView_post env now form ws =
     (case raised
             [validate_email env (form_email form),
              validate_length env (form_name form) 3 25
                ''Please, input name with a length between 3 and 25 chars'',
              validate_equal_passwords (form_password1 form) (form_password2 form),
              validate_password_length env (form_password2 form)] of
        Some message \<Rightarrow> (Rendered ''authentication/register.html'', flash message ws)
      | None \<Rightarrow>
          if find (\<lambda>u. email u = form_email form) (users_table ws) \<noteq> None
          then (Rendered ''authentication/register.html'',
                flash ''User with such an email has been registered!'' ws)
          else if find (\<lambda>u. username u = form_username form) (users_table ws) \<noteq> None
          then (Rendered ''authentication/register.html'',
                flash ''This username is busy! Try putting another one'' ws)
          else (Redirected ''authentication.login'',
                flash ''Successfully registered!''
                  (ws\<lparr>users_table := users_table ws @
                        [\<lparr>user_id = next_user_id (users_table ws),
                          username = form_username form,
                          email = form_email form,
                          name = Some (form_name form),
                          password_hash = generate_password_hash env (form_password2 form),
                          date_joined = now\<rparr>]\<rparr>)))"

text \<open>
  \<open>ResetPasswordView.get\<close>: the two \<open>except\<close> clauses in their order, \<open>except
  SignatureExpired\<close> before \<open>except BadSignature\<close>; any other exception leaves the view.
\<close>

definition ResetPasswordView_get ::
  "config \<Rightarrow> user list \<Rightarrow> nat \<Rightarrow> token \<Rightarrow> error + response" where
  "ResetPasswordView_get cfg table now t =
     (case get_user_by_reset_password_token cfg table now t of
        Inl e \<Rightarrow>
          if e = SignatureExpired
          then Inr (Rendered ''authentication/reset_password_expired.html'')
          else if is_BadSignature e then Inr (Aborted 404)
          else Inl e
      | Inr u \<Rightarrow> Inr (Rendered ''authentication/reset_password.html''))"

text \<open>
  \<open>ResetPasswordView.post\<close>: the token is resolved outside any \<open>try\<close>, so an exception of
  the resolution leaves the view; then the password pair is validated, the new hash is
  stored in the row of the user and the view redirects to the login.
\<close>

definition ResetPasswordView_post ::
  "app_env \<Rightarrow> config \<Rightarrow> nat \<Rightarrow> token \<Rightarrow> string \<Rightarrow> string \<Rightarrow> web_state \<Rightarrow>
     (error + response) \<times> web_state" where
  "ResetPasswordView_post env cfg now t password1 password2 ws =
     (case get_user_by_reset_password_token cfg (users_table ws) now t of
        Inl e \<Rightarrow> (Inl e, ws)
      | Inr u \<Rightarrow>
          (case raised
                  [validate_equal_passwords password1 password2,
                   validate_password_length env password2] of
             Some message \<Rightarrow>
               (Inr (Rendered ''authentication/reset_password.html''), flash message ws)
           | None \<Rightarrow>
               (Inr (Redirected ''authentication.login''),
                flash ''You password was successfully reset''
                  (ws\<lparr>users_table :=
                        map (\<lambda>r. if user_id r = user_id u
                                  then r\<lparr>password_hash := generate_password_hash env password2\<rparr>
                                  else r)
                            (users_table ws)\<rparr>))))"

section \<open>Values for running the definitions\<close>

text \<open>
  The first two users of \<open>init_users\<close> in \<open>test_user_model.py\<close>, as stored with the ids 1
  and 2; a configuration and an environment for the parameters; and a registration form
  with the email of the first user.
\<close>

definition user1 :: user where [simp]:
  "user1 = \<lparr>user_id = 1, username = ''user1'', email = ''user1@gmail.com'',
             name = Some ''name1'', password_hash = ''123'', date_joined = 0\<rparr>"

definition user2 :: user where [simp]:
  "user2 = \<lparr>user_id = 2, username = ''user2'', email = ''user2@gmail.com'',
             name = Some ''name2'', password_hash = ''123'', date_joined = 0\<rparr>"

definition a_config :: config where [simp]:
  "a_config = \<lparr>SECRET_KEY = ''secret'', PASSWORD_DEFAULT_EXPIRES_IN = 600,
                AUTHENTICATION_TOKEN_DEFAULT_EXPIRES_IN = 3600\<rparr>"

definition an_env :: app_env where [simp]:
  "an_env = \<lparr>validate_email = \<lambda>_. None, validate_length = \<lambda>_ _ _ _. None,
              password_min_length = 6, password_length_message = ''Password is too short'',
              generate_password_hash = \<lambda>p. ''hash of '' @ p\<rparr>"

definition taken_email_form :: register_form where [simp]:
  "taken_email_form =
     \<lparr>form_email = ''user1@gmail.com'', form_username = ''user2'', form_name = ''Ann'',
      form_password1 = ''Who am I'', form_password2 = ''Who am I''\<rparr>"

section \<open>The caches agree with the table as long as no write is rolled back\<close>

text \<open>
  Both cache operations keep a property that holds of every entry, and both readers
  return what their body computes once the caches agree with the table.
\<close>

lemma list_all_lru_hit: "list_all P c \<Longrightarrow> P (k, v) \<Longrightarrow> list_all P (lru_hit k v c)"
  by (simp add: lru_hit_def list_all_iff)

lemma list_all_lru_store: "list_all P c \<Longrightarrow> P (k, v) \<Longrightarrow> list_all P (lru_store k v c)"
  by (auto simp: lru_store_def list_all_iff dest!: in_set_takeD)

lemma map_of_list_all: "list_all P c \<Longrightarrow> map_of c k = Some v \<Longrightarrow> P (k, v)"
  by (auto simp: list_all_iff dest: map_of_SomeD)

lemma caches_agree_boot: "caches_agree (boot rows)"
  by (simp add: caches_agree_def boot_def)

lemma is_chat_between_chats: "chats (snd (is_chat_between a b s)) = chats s"
  by (simp add: is_chat_between_def Let_def split: option.splits)

lemma is_chat_between_id_cache: "get_chat_id_cache (snd (is_chat_between a b s)) = get_chat_id_cache s"
  by (simp add: is_chat_between_def Let_def split: option.splits)

lemma is_chat_between_agrees:
  assumes "caches_agree s"
  shows "fst (is_chat_between a b s) = is_chat_between_query (chats s) a b"
    and "caches_agree (snd (is_chat_between a b s))"
proof -
  let ?P = "\<lambda>((a, b), v). v = is_chat_between_query (chats s) a b"
  from assms have c: "list_all ?P (is_chat_between_cache s)"
    and d: "list_all (\<lambda>((a, b), v). get_chat_id_query (chats s) a b = Inr v) (get_chat_id_cache s)"
    by (simp_all add: caches_agree_def)
  show "fst (is_chat_between a b s) = is_chat_between_query (chats s) a b"
    using map_of_list_all [OF c, of "(a, b)"]
    by (simp add: is_chat_between_def Let_def split: option.splits)
  show "caches_agree (snd (is_chat_between a b s))"
  proof (cases "map_of (is_chat_between_cache s) (a, b)")
    case None
    then show ?thesis using c d
      by (simp add: is_chat_between_def Let_def caches_agree_def list_all_lru_store)
  next
    case (Some v)
    with map_of_list_all [OF c Some] show ?thesis using c d
      by (simp add: is_chat_between_def caches_agree_def list_all_lru_hit)
  qed
qed

lemma get_chat_id_chats: "chats (snd (get_chat_id_by_users_ids a b s)) = chats s"
  by (simp add: get_chat_id_by_users_ids_def split: option.splits sum.splits)

lemma get_chat_id_agrees:
  assumes "caches_agree s"
  shows "fst (get_chat_id_by_users_ids a b s) = get_chat_id_query (chats s) a b"
    and "caches_agree (snd (get_chat_id_by_users_ids a b s))"
proof -
  let ?Q = "\<lambda>((a, b), v). get_chat_id_query (chats s) a b = Inr v"
  from assms have c: "list_all (\<lambda>((a, b), v). v = is_chat_between_query (chats s) a b) (is_chat_between_cache s)"
    and d: "list_all ?Q (get_chat_id_cache s)"
    by (simp_all add: caches_agree_def)
  show "fst (get_chat_id_by_users_ids a b s) = get_chat_id_query (chats s) a b"
    using map_of_list_all [OF d, of "(a, b)"]
    by (simp add: get_chat_id_by_users_ids_def split: option.splits sum.splits)
  show "caches_agree (snd (get_chat_id_by_users_ids a b s))"
  proof (cases "map_of (get_chat_id_cache s) (a, b)")
    case None
    then show ?thesis using c d assms
      by (simp add: get_chat_id_by_users_ids_def caches_agree_def list_all_lru_store split: sum.splits)
  next
    case (Some v)
    with map_of_list_all [OF d Some] show ?thesis using c d
      by (simp add: get_chat_id_by_users_ids_def caches_agree_def list_all_lru_hit)
  qed
qed

text \<open>The id of an inserted row is above every id in use.\<close>

lemma le_fold_max: "x \<le> a \<or> x \<in> set xs \<Longrightarrow> (x::int) \<le> fold max xs a"
proof (induction xs arbitrary: a)
  case Nil
  then show ?case by simp
next
  case (Cons y ys)
  from Cons.prems have "x \<le> max y a \<or> x \<in> set ys" by auto
  then show ?case using Cons.IH [of "max y a"] by simp
qed

lemma next_chat_id_fresh: "r \<in> set rows \<Longrightarrow> chat_id r < next_chat_id rows"
proof (cases rows)
  case Nil
  then show "r \<in> set rows \<Longrightarrow> ?thesis" by simp
next
  case (Cons r0 rs)
  assume "r \<in> set rows"
  with Cons have "chat_id r \<le> chat_id r0 \<or> chat_id r \<in> set (map chat_id rs)" by auto
  from le_fold_max [OF this] show ?thesis by (simp add: next_chat_id_def Cons)
qed

lemma filter_fresh_id:
  "filter (\<lambda>r. chat_id r \<noteq> next_chat_id rows) rows = rows"
  by (auto simp: filter_id_conv dest: next_chat_id_fresh)

text \<open>
  The four methods and a commit keep the agreement, so it holds in every state that a
  sequence of calls without a rollback reaches from a process start.
\<close>

lemma pair_rows_append: "pair_rows (rows @ rs) a b = pair_rows rows a b @ pair_rows rs a b"
  by (simp add: pair_rows_def)

lemma pair_rows_sym: "pair_rows rows b a = pair_rows rows a b"
  by (simp add: pair_rows_def min.commute max.commute)

lemma pair_rows_sorted: "pair_rows rows (min a b) (max a b) = pair_rows rows a b"
  by (simp add: pair_rows_def)

lemma create_chat_agrees:
  assumes "caches_agree s"
  shows "caches_agree (snd (create_chat a b s))"
proof -
  let ?u1 = "min a b" and ?u2 = "max a b"
  obtain found s1 where r: "is_chat_between ?u1 ?u2 s = (found, s1)" by fastforce
  from is_chat_between_agrees [OF assms, of ?u1 ?u2] r
  have found: "found = is_chat_between_query (chats s) a b" and s1: "caches_agree s1"
    by (simp_all add: is_chat_between_query_def pair_rows_sorted)
  from r have ch: "chats s1 = chats s" using is_chat_between_chats [of ?u1 ?u2 s] by simp
  show ?thesis
  proof (cases found)
    case True
    then show ?thesis using r s1 by (simp add: create_chat_def)
  next
    case False
    with found ch have none: "pair_rows (chats s1) a b = []" by (simp add: is_chat_between_query_def)
    let ?new = "\<lparr>chat_id = next_chat_id (chats s1), user1_id = ?u1, user2_id = ?u2\<rparr>"
    have keep: "get_chat_id_query (chats s1 @ [?new]) x y = Inr v"
      if "get_chat_id_query (chats s1) x y = Inr v" for x y v
    proof -
      from that have "pair_rows (chats s1) x y \<noteq> []" by (auto simp: get_chat_id_query_def)
      with none have "\<not> (min x y = ?u1 \<and> max x y = ?u2)" by (auto simp: pair_rows_def)
      then have "pair_rows [?new] x y = []" by (auto simp: pair_rows_def)
      with that show ?thesis by (simp add: get_chat_id_query_def pair_rows_append)
    qed
    from s1 have "list_all (\<lambda>((x, y), v). get_chat_id_query (chats s1 @ [?new]) x y = Inr v) (get_chat_id_cache s1)"
      by (auto simp: caches_agree_def list_all_iff keep)
    with False r show ?thesis by (simp add: create_chat_def caches_agree_def)
  qed
qed

lemma delete_chat_agrees:
  assumes "caches_agree s"
  shows "caches_agree (snd (delete_chat p c s))"
proof -
  have res: "caches_agree (snd (resolve_chat_id p c s))"
  proof (cases "truthy c")
    case True
    then show ?thesis using assms by (simp add: resolve_chat_id_def)
  next
    case False
    have "caches_agree (snd (case p of Some [x, y] \<Rightarrow> get_chat_id_by_users_ids x y s
                                      | _ \<Rightarrow> (Inl TypeError, s)))"
      using assms get_chat_id_agrees(2) [OF assms]
      by (simp split: option.split list.split)
    with False show ?thesis by (simp add: resolve_chat_id_def)
  qed
  obtain r s1 where e: "resolve_chat_id p c s = (r, s1)" by fastforce
  with res show ?thesis
    by (cases r) (simp_all add: delete_chat_def caches_agree_def)
qed

lemma commit_agrees: "caches_agree s \<Longrightarrow> caches_agree (commit s)"
  by (simp add: caches_agree_def commit_def)

lemma perform_agrees: "c \<noteq> Rollback \<Longrightarrow> caches_agree s \<Longrightarrow> caches_agree (perform c s)"
  by (cases c) (simp_all add: is_chat_between_agrees(2) get_chat_id_agrees(2)
      create_chat_agrees delete_chat_agrees commit_agrees)

lemma run_agrees: "Rollback \<notin> set cs \<Longrightarrow> caches_agree s \<Longrightarrow> caches_agree (run cs s)"
  unfolding run_def
proof (induction cs arbitrary: s)
  case Nil
  then show ?case by simp
next
  case (Cons c cs)
  from Cons.prems have "c \<noteq> Rollback" and "Rollback \<notin> set cs" by auto
  with Cons.prems(2) Cons.IH [of "perform c s"] show ?case
    by (simp add: perform_agrees)
qed

lemma reachable_agrees: "Rollback \<notin> set cs \<Longrightarrow> caches_agree (run cs (boot rows))"
  by (rule run_agrees [OF _ caches_agree_boot])

lemma run_append: "run (cs @ ds) s = run ds (run cs s)"
  by (simp add: run_def)

lemma create_chat_result:
  assumes "caches_agree s"
  shows "create_chat a b s =
    (if is_chat_between_query (chats s) a b
     then (Inl ChatAlreadyExistsError, snd (is_chat_between (min a b) (max a b) s))
     else (Inr (),
           (snd (is_chat_between (min a b) (max a b) s))
             \<lparr>chats := chats s @
                [\<lparr>chat_id = next_chat_id (chats s), user1_id = min a b, user2_id = max a b\<rparr>],
              is_chat_between_cache := []\<rparr>))"
proof -
  obtain found s1 where r: "is_chat_between (min a b) (max a b) s = (found, s1)" by fastforce
  from is_chat_between_agrees(1) [OF assms, of "min a b" "max a b"] r
  have found: "found = is_chat_between_query (chats s) a b"
    by (simp add: is_chat_between_query_def pair_rows_sorted)
  from r have ch: "chats s1 = chats s" using is_chat_between_chats [of "min a b" "max a b" s] by simp
  show ?thesis using r found ch by (simp add: create_chat_def)
qed

lemma query_no_rows:
  "\<not> is_chat_between_query rows a b \<Longrightarrow> get_chat_id_query rows a b = Inl ChatNotFoundByIndexesError"
  by (simp add: is_chat_between_query_def get_chat_id_query_def)

lemma get_chat_id_not_found:
  assumes "caches_agree s" and "\<not> is_chat_between_query (chats s) a b"
  shows "get_chat_id_by_users_ids a b s = (Inl ChatNotFoundByIndexesError, s)"
proof -
  from get_chat_id_agrees(1) [OF assms(1), of a b] query_no_rows [OF assms(2)]
  have f: "fst (get_chat_id_by_users_ids a b s) = Inl ChatNotFoundByIndexesError" by simp
  then show ?thesis
    by (auto simp: get_chat_id_by_users_ids_def split: option.splits sum.splits)
qed

text \<open>What the two queries say about the rows of the table.\<close>

lemma is_chat_between_query_iff:
  "is_chat_between_query rows a b \<longleftrightarrow> (min a b, max a b) \<in> pair_of ` set rows"
  by (force simp: is_chat_between_query_def pair_rows_def pair_of_def filter_empty_conv)

lemma get_chat_id_query_Inr:
  assumes "get_chat_id_query rows a b = Inr c"
  shows "c \<noteq> 0 \<and> (\<exists>r. pair_rows rows a b = [r] \<and> chat_id r = c)"
  using assms
  by (auto simp: get_chat_id_query_def split: list.splits if_splits)


text \<open>
  A \<open>delete_chat\<close> by pair that returns, in a state whose caches agree with the table,
  leaves no row of the pair and both caches empty.
\<close>

lemma delete_by_pair_removes:
  assumes "caches_agree s" and "delete_chat (Some [x, y]) None s = (Inr (), s2)"
  shows "pair_rows (chats s2) x y = [] \<and> is_chat_between_cache s2 = [] \<and>
         get_chat_id_cache s2 = []"
proof -
  obtain r t where g: "get_chat_id_by_users_ids x y s = (r, t)" by fastforce
  with assms(2) obtain c where r: "r = Inr c"
    and s2: "s2 = t\<lparr>chats := filter (\<lambda>r. chat_id r \<noteq> c) (chats t),
                    is_chat_between_cache := [], get_chat_id_cache := []\<rparr>"
    by (cases r) (auto simp: delete_chat_def resolve_chat_id_def truthy_def)
  from g get_chat_id_chats [of x y s] have t: "chats t = chats s" by simp
  from g r get_chat_id_agrees(1) [OF assms(1), of x y]
  have "get_chat_id_query (chats s) x y = Inr c" by simp
  from get_chat_id_query_Inr [OF this] obtain row
    where row: "pair_rows (chats s) x y = [row]" and c: "chat_id row = c" by blast
  have "pair_rows (filter (\<lambda>r. chat_id r \<noteq> c) (chats s)) x y =
          filter (\<lambda>r. chat_id r \<noteq> c) (pair_rows (chats s) x y)"
    by (simp add: pair_rows_def conj_commute)
  with row c have "pair_rows (filter (\<lambda>r. chat_id r \<noteq> c) (chats s)) x y = []" by simp
  with s2 t show ?thesis by simp
qed

text \<open>The definitions a run of the chat methods on concrete values unfolds.\<close>

lemmas chat_defs =
  run_def boot_def create_chat_def delete_chat_def resolve_chat_id_def truthy_def
  is_chat_between_def get_chat_id_by_users_ids_def is_chat_between_query_def
  get_chat_id_query_def pair_rows_def next_chat_id_def lru_store_def lru_hit_def maxsize_def
  commit_def rollback_def pair_of_def

subsection \<open>C1: after a mutation the readers agree with the table\<close>




subsection \<open>C2: which caches a mutation clears\<close>

text \<open>
  Claim C2 as it is written fails for \<open>create_chat\<close>: after \<open>create_chat(1, 2)\<close> and
  \<open>get_chat_id_by_users_ids(1, 2)\<close>, a successful \<open>create_chat(3, 4)\<close> leaves the entry
  \<open>(1, 2) \<mapsto> 1\<close> in the cache of \<open>get_chat_id_by_users_ids\<close>.
\<close>
theorem create_chat_keeps_id_cache_counterexample:
  "create_chat 3 4 (run [CreateChat 1 2, GetChatIdByUsersIds 1 2] (boot [])) =
     (Inr (), \<lparr>chats = [\<lparr>chat_id = 1, user1_id = 1, user2_id = 2\<rparr>,
                         \<lparr>chat_id = 2, user1_id = 3, user2_id = 4\<rparr>],
               committed = [],
               is_chat_between_cache = [], get_chat_id_cache = [((1, 2), 1)]\<rparr>)"
  by (simp add: chat_defs)

text \<open>
  Claim C2, amended. A \<open>create_chat\<close> that returns has cleared the cache of
  \<open>is_chat_between\<close> and has left the cache of \<open>get_chat_id_by_users_ids\<close> as it was; a
  \<open>delete_chat\<close> that returns has cleared both caches.
\<close>
theorem mutation_clears_caches:
  "(create_chat a b s = (Inr (), s') \<longrightarrow>
      is_chat_between_cache s' = [] \<and> get_chat_id_cache s' = get_chat_id_cache s) \<and>
   (delete_chat p c s = (Inr (), s'') \<longrightarrow>
      is_chat_between_cache s'' = [] \<and> get_chat_id_cache s'' = [])"
proof -
  obtain found s1 where r: "is_chat_between (min a b) (max a b) s = (found, s1)" by fastforce
  with is_chat_between_id_cache [of "min a b" "max a b" s]
  have "get_chat_id_cache s1 = get_chat_id_cache s" by simp
  with r have 1: "create_chat a b s = (Inr (), s') \<longrightarrow>
      is_chat_between_cache s' = [] \<and> get_chat_id_cache s' = get_chat_id_cache s"
    by (auto simp: create_chat_def split: if_splits)
  obtain e s2 where "resolve_chat_id p c s = (e, s2)" by fastforce
  then have 2: "delete_chat p c s = (Inr (), s'') \<longrightarrow>
      is_chat_between_cache s'' = [] \<and> get_chat_id_cache s'' = []"
    by (cases e) (auto simp: delete_chat_def)
  from 1 2 show ?thesis by simp
qed

text \<open>The amended C2 at a state with one chat and both caches filled.\<close>
theorem mutation_clears_caches_witness:
  "create_chat 3 4 \<lparr>chats = [\<lparr>chat_id = 1, user1_id = 1, user2_id = 2\<rparr>],
                    committed = [\<lparr>chat_id = 1, user1_id = 1, user2_id = 2\<rparr>],
                    is_chat_between_cache = [((1, 2), True)], get_chat_id_cache = [((1, 2), 1)]\<rparr> =
     (Inr (), \<lparr>chats = [\<lparr>chat_id = 1, user1_id = 1, user2_id = 2\<rparr>,
                         \<lparr>chat_id = 2, user1_id = 3, user2_id = 4\<rparr>],
               committed = [\<lparr>chat_id = 1, user1_id = 1, user2_id = 2\<rparr>],
               is_chat_between_cache = [], get_chat_id_cache = [((1, 2), 1)]\<rparr>) \<and>
   delete_chat (Some [2, 1]) None
       \<lparr>chats = [\<lparr>chat_id = 1, user1_id = 1, user2_id = 2\<rparr>],
         committed = [\<lparr>chat_id = 1, user1_id = 1, user2_id = 2\<rparr>],
         is_chat_between_cache = [((1, 2), True)], get_chat_id_cache = [((1, 2), 1)]\<rparr> =
     (Inr (), \<lparr>chats = [], committed = [\<lparr>chat_id = 1, user1_id = 1, user2_id = 2\<rparr>],
               is_chat_between_cache = [], get_chat_id_cache = []\<rparr>)"
proof -
  let ?s = "\<lparr>chats = [\<lparr>chat_id = 1, user1_id = 1, user2_id = 2\<rparr>],
             committed = [\<lparr>chat_id = 1, user1_id = 1, user2_id = 2\<rparr>],
             is_chat_between_cache = [((1, 2), True)], get_chat_id_cache = [((1, 2), 1)]\<rparr>"
  have c: "create_chat 3 4 ?s =
     (Inr (), \<lparr>chats = [\<lparr>chat_id = 1, user1_id = 1, user2_id = 2\<rparr>,
                         \<lparr>chat_id = 2, user1_id = 3, user2_id = 4\<rparr>],
               committed = [\<lparr>chat_id = 1, user1_id = 1, user2_id = 2\<rparr>],
               is_chat_between_cache = [], get_chat_id_cache = [((1, 2), 1)]\<rparr>)"
    by (simp add: chat_defs)
  have d: "delete_chat (Some [2, 1]) None ?s =
     (Inr (), \<lparr>chats = [], committed = [\<lparr>chat_id = 1, user1_id = 1, user2_id = 2\<rparr>],
               is_chat_between_cache = [], get_chat_id_cache = []\<rparr>)"
    by (simp add: chat_defs)
  from mutation_clears_caches [of 3 4 ?s _ "Some [2, 1]" None] c d
  show ?thesis by simp
qed

subsection \<open>C3: creating a chat twice\<close>

text \<open>
  Claim C3 as it is written fails once a write is rolled back. After \<open>create_chat(1, 2)\<close>,
  \<open>is_chat_between(1, 2)\<close> and a rollback, the table has no row, and \<open>create_chat(1, 2)\<close>
  raises \<open>ChatAlreadyExistsError\<close> from the cached answer.
\<close>
theorem create_after_rollback_counterexample:
  "chats (run [CreateChat 1 2, IsChatBetween 1 2, Rollback] (boot [])) = [] \<and>
   fst (create_chat 1 2 (run [CreateChat 1 2, IsChatBetween 1 2, Rollback] (boot []))) =
     Inl ChatAlreadyExistsError"
  by (simp add: chat_defs)

text \<open>
  Claim C3, amended. As long as no write of the session has been rolled back, for two ids
  \<open>a \<noteq> b\<close> whose ascending pair no row of the table holds, \<open>create_chat(a, b)\<close> returns and
  appends the row of the ascending pair, a following \<open>create_chat(b, a)\<close> raises
  \<open>ChatAlreadyExistsError\<close> and leaves the table as it is, and then \<open>is_chat_between(a, b)\<close>
  and \<open>is_chat_between(b, a)\<close> both give true.
\<close>
theorem create_twice_then_both_orders:
  assumes "a \<noteq> b"
    and "Rollback \<notin> set cs"
    and "s = run cs (boot rows)"
    and "(min a b, max a b) \<notin> pair_of ` set (chats s)"
    and "s1 = snd (create_chat a b s)"
    and "s2 = snd (create_chat b a s1)"
    and "s3 = snd (is_chat_between a b s2)"
  shows "fst (create_chat a b s) = Inr () \<and>
         chats s1 = chats s @
           [\<lparr>chat_id = next_chat_id (chats s), user1_id = min a b, user2_id = max a b\<rparr>] \<and>
         fst (create_chat b a s1) = Inl ChatAlreadyExistsError \<and>
         chats s2 = chats s1 \<and>
         fst (is_chat_between a b s2) = True \<and>
         fst (is_chat_between b a s3) = True"
proof -
  have agree: "caches_agree s" using assms(2,3) by (simp add: reachable_agrees)
  have agree1: "caches_agree s1" using assms(5) agree by (simp add: create_chat_agrees)
  have agree2: "caches_agree s2" using assms(6) agree1 by (simp add: create_chat_agrees)
  have agree3: "caches_agree s3" using assms(7) agree2 by (simp add: is_chat_between_agrees(2))
  let ?new = "\<lparr>chat_id = next_chat_id (chats s), user1_id = min a b, user2_id = max a b\<rparr>"
  from assms(4) have absent: "\<not> is_chat_between_query (chats s) a b"
    by (simp add: is_chat_between_query_iff)
  from create_chat_result [OF agree, of a b] absent
  have r1: "fst (create_chat a b s) = Inr ()" and c1: "chats s1 = chats s @ [?new]"
    by (simp_all add: assms(5))
  from c1 have q1: "is_chat_between_query (chats s1) b a"
    by (simp add: is_chat_between_query_def pair_rows_def min.commute max.commute)
  from create_chat_result [OF agree1, of b a] q1
  have r2: "fst (create_chat b a s1) = Inl ChatAlreadyExistsError" and c2: "chats s2 = chats s1"
    by (simp_all add: assms(6) is_chat_between_chats)
  from q1 c2 have q2: "is_chat_between_query (chats s2) b a" by simp
  then have q2': "is_chat_between_query (chats s2) a b"
    by (simp add: is_chat_between_query_def pair_rows_sym)
  have r3: "fst (is_chat_between a b s2) = True"
    using is_chat_between_agrees(1) [OF agree2, of a b] q2' by simp
  have "chats s3 = chats s2" by (simp add: assms(7) is_chat_between_chats)
  with q2 have r4: "fst (is_chat_between b a s3) = True"
    using is_chat_between_agrees(1) [OF agree3, of b a] by simp
  from r1 c1 r2 c2 r3 r4 show ?thesis by simp
qed

text \<open>
  The amended C3 for the ids 4 and 3 where the chat of 1 and 2 exists and both orders of
  the pair have been asked for and answered with false before.
\<close>
theorem create_twice_then_both_orders_witness:
  "(4::int) \<noteq> 3 \<and>
   Rollback \<notin> set [CreateChat 1 2, IsChatBetween 3 4, IsChatBetween 4 3, Commit] \<and>
   run [CreateChat 1 2, IsChatBetween 3 4, IsChatBetween 4 3, Commit] (boot []) =
     \<lparr>chats = [\<lparr>chat_id = 1, user1_id = 1, user2_id = 2\<rparr>],
      committed = [\<lparr>chat_id = 1, user1_id = 1, user2_id = 2\<rparr>],
      is_chat_between_cache = [((4, 3), False), ((3, 4), False)], get_chat_id_cache = []\<rparr> \<and>
   (min 4 3, max 4 3) \<notin> pair_of ` set [\<lparr>chat_id = 1, user1_id = 1, user2_id = 2\<rparr>] \<and>
   create_chat 4 3
       \<lparr>chats = [\<lparr>chat_id = 1, user1_id = 1, user2_id = 2\<rparr>],
        committed = [\<lparr>chat_id = 1, user1_id = 1, user2_id = 2\<rparr>],
        is_chat_between_cache = [((4, 3), False), ((3, 4), False)], get_chat_id_cache = []\<rparr> =
     (Inr (), \<lparr>chats = [\<lparr>chat_id = 1, user1_id = 1, user2_id = 2\<rparr>,
                         \<lparr>chat_id = 2, user1_id = 3, user2_id = 4\<rparr>],
               committed = [\<lparr>chat_id = 1, user1_id = 1, user2_id = 2\<rparr>],
               is_chat_between_cache = [], get_chat_id_cache = []\<rparr>) \<and>
   create_chat 3 4
       \<lparr>chats = [\<lparr>chat_id = 1, user1_id = 1, user2_id = 2\<rparr>,
                 \<lparr>chat_id = 2, user1_id = 3, user2_id = 4\<rparr>],
        committed = [\<lparr>chat_id = 1, user1_id = 1, user2_id = 2\<rparr>],
        is_chat_between_cache = [], get_chat_id_cache = []\<rparr> =
     (Inl ChatAlreadyExistsError,
      \<lparr>chats = [\<lparr>chat_id = 1, user1_id = 1, user2_id = 2\<rparr>,
                \<lparr>chat_id = 2, user1_id = 3, user2_id = 4\<rparr>],
       committed = [\<lparr>chat_id = 1, user1_id = 1, user2_id = 2\<rparr>],
       is_chat_between_cache = [((3, 4), True)], get_chat_id_cache = []\<rparr>) \<and>
   is_chat_between 4 3
       \<lparr>chats = [\<lparr>chat_id = 1, user1_id = 1, user2_id = 2\<rparr>,
                 \<lparr>chat_id = 2, user1_id = 3, user2_id = 4\<rparr>],
        committed = [\<lparr>chat_id = 1, user1_id = 1, user2_id = 2\<rparr>],
        is_chat_between_cache = [((3, 4), True)], get_chat_id_cache = []\<rparr> =
     (True,
      \<lparr>chats = [\<lparr>chat_id = 1, user1_id = 1, user2_id = 2\<rparr>,
                \<lparr>chat_id = 2, user1_id = 3, user2_id = 4\<rparr>],
       committed = [\<lparr>chat_id = 1, user1_id = 1, user2_id = 2\<rparr>],
       is_chat_between_cache = [((4, 3), True), ((3, 4), True)], get_chat_id_cache = []\<rparr>) \<and>
   fst (is_chat_between 3 4
       \<lparr>chats = [\<lparr>chat_id = 1, user1_id = 1, user2_id = 2\<rparr>,
                 \<lparr>chat_id = 2, user1_id = 3, user2_id = 4\<rparr>],
        committed = [\<lparr>chat_id = 1, user1_id = 1, user2_id = 2\<rparr>],
        is_chat_between_cache = [((4, 3), True), ((3, 4), True)], get_chat_id_cache = []\<rparr>) =
     True"
proof -
  let ?cs = "[CreateChat 1 2, IsChatBetween 3 4, IsChatBetween 4 3, Commit]"
  let ?s = "\<lparr>chats = [\<lparr>chat_id = 1, user1_id = 1, user2_id = 2\<rparr>],
      committed = [\<lparr>chat_id = 1, user1_id = 1, user2_id = 2\<rparr>],
      is_chat_between_cache = [((4, 3), False), ((3, 4), False)], get_chat_id_cache = []\<rparr>"
  have h1: "(4::int) \<noteq> 3" by simp
  have h2: "Rollback \<notin> set ?cs" by simp
  have h3: "run ?cs (boot []) = ?s" by (simp add: chat_defs)
  have h4: "(min 4 3, max 4 3) \<notin> pair_of ` set (chats ?s)" by (simp add: pair_of_def)
  from create_twice_then_both_orders [OF h1 h2 h3 [symmetric] h4 refl refl refl] h1 h2 h3 h4
  show ?thesis by (simp add: chat_defs)
qed

subsection \<open>C6: deleting a chat\<close>

text \<open>
  Claim C6 as it is written fails once a write is rolled back. After \<open>create_chat(1, 2)\<close>,
  \<open>get_chat_id_by_users_ids(1, 2)\<close> and a rollback, the table has no row, and
  \<open>delete_chat([1, 2])\<close> returns without raising, taking the chat id from the cache.
\<close>
theorem delete_after_rollback_counterexample:
  "chats (run [CreateChat 1 2, GetChatIdByUsersIds 1 2, Rollback] (boot [])) = [] \<and>
   fst (delete_chat (Some [1, 2]) None
         (run [CreateChat 1 2, GetChatIdByUsersIds 1 2, Rollback] (boot []))) = Inr ()"
  by (simp add: chat_defs)

text \<open>
  Claim C6, amended. As long as no write of the session has been rolled back:
  \<open>delete_chat\<close> with a pair whose ascending pair no row of the table holds raises
  \<open>ChatNotFoundByIndexesError\<close> and leaves the state as it is; and for \<open>a \<noteq> b\<close>, after a
  \<open>create_chat(a, b)\<close> that returned, any further calls (reads of either function among
  them), and a \<open>delete_chat\<close> of the same pair (in either order) that returned, no row
  holds the ascending pair, \<open>is_chat_between\<close> gives false for both orders and
  \<open>get_chat_id_by_users_ids(a, b)\<close> raises \<open>ChatNotFoundByIndexesError\<close>.
\<close>
theorem delete_absent_and_create_delete_cycle:
  assumes "Rollback \<notin> set cs" and "s = run cs (boot rows)"
  shows "((min a b, max a b) \<notin> pair_of ` set (chats s) \<longrightarrow>
            delete_chat (Some [a, b]) None s = (Inl ChatNotFoundByIndexesError, s)) \<and>
         (a \<noteq> b \<and> create_chat a b s = (Inr (), s1) \<and> Rollback \<notin> set rs \<and>
          (delete_chat (Some [a, b]) None (run rs s1) = (Inr (), s2) \<or>
           delete_chat (Some [b, a]) None (run rs s1) = (Inr (), s2)) \<longrightarrow>
            (min a b, max a b) \<notin> pair_of ` set (chats s2) \<and>
            fst (is_chat_between a b s2) = False \<and>
            fst (is_chat_between b a s2) = False \<and>
            fst (get_chat_id_by_users_ids a b s2) = Inl ChatNotFoundByIndexesError)"
proof (intro conjI impI)
  have agree: "caches_agree s" using assms by (simp add: reachable_agrees)
  {
    assume "(min a b, max a b) \<notin> pair_of ` set (chats s)"
    then have "\<not> is_chat_between_query (chats s) a b" by (simp add: is_chat_between_query_iff)
    from get_chat_id_not_found [OF agree this]
    show "delete_chat (Some [a, b]) None s = (Inl ChatNotFoundByIndexesError, s)"
      by (simp add: delete_chat_def resolve_chat_id_def truthy_def)
  }
  assume h: "a \<noteq> b \<and> create_chat a b s = (Inr (), s1) \<and> Rollback \<notin> set rs \<and>
          (delete_chat (Some [a, b]) None (run rs s1) = (Inr (), s2) \<or>
           delete_chat (Some [b, a]) None (run rs s1) = (Inr (), s2))"
  have "caches_agree s1" using create_chat_agrees [OF agree, of a b] h by simp
  with h have agree1: "caches_agree (run rs s1)" by (simp add: run_agrees)
  from h delete_by_pair_removes [OF agree1, of a b s2] delete_by_pair_removes [OF agree1, of b a s2]
  have gone: "pair_rows (chats s2) a b = []" and c1: "is_chat_between_cache s2 = []"
    and c2: "get_chat_id_cache s2 = []"
    by (auto simp: pair_rows_sym)
  from gone have q: "\<not> is_chat_between_query (chats s2) a b"
    and q': "\<not> is_chat_between_query (chats s2) b a"
    by (simp_all add: is_chat_between_query_def pair_rows_sym)
  from q show "(min a b, max a b) \<notin> pair_of ` set (chats s2)"
    by (simp add: is_chat_between_query_iff)
  from q q' c1 c2 query_no_rows [OF q]
  show "fst (is_chat_between a b s2) = False" and "fst (is_chat_between b a s2) = False"
    and "fst (get_chat_id_by_users_ids a b s2) = Inl ChatNotFoundByIndexesError"
    by (simp_all add: is_chat_between_def get_chat_id_by_users_ids_def)
qed

text \<open>
  The amended C6 where the chat of 3 and 4 exists: deleting the absent pair of 1 and 2,
  then creating it, asking both readers for it, deleting it and asking again.
\<close>
theorem delete_absent_and_create_delete_cycle_witness:
  "Rollback \<notin> set [CreateChat 3 4, Commit] \<and>
   chats (run [CreateChat 3 4, Commit] (boot [])) = [\<lparr>chat_id = 1, user1_id = 3, user2_id = 4\<rparr>] \<and>
   (min 1 2, max 1 2) \<notin> pair_of ` set [\<lparr>chat_id = 1, user1_id = 3, user2_id = 4\<rparr>] \<and>
   delete_chat (Some [1, 2]) None (run [CreateChat 3 4, Commit] (boot [])) =
     (Inl ChatNotFoundByIndexesError, run [CreateChat 3 4, Commit] (boot [])) \<and>
   (1::int) \<noteq> 2 \<and>
   Rollback \<notin> set [IsChatBetween 1 2, IsChatBetween 2 1, GetChatIdByUsersIds 1 2] \<and>
   run [IsChatBetween 1 2, IsChatBetween 2 1, GetChatIdByUsersIds 1 2]
       (snd (create_chat 1 2 (run [CreateChat 3 4, Commit] (boot [])))) =
     \<lparr>chats = [\<lparr>chat_id = 1, user1_id = 3, user2_id = 4\<rparr>,
               \<lparr>chat_id = 2, user1_id = 1, user2_id = 2\<rparr>],
      committed = [\<lparr>chat_id = 1, user1_id = 3, user2_id = 4\<rparr>],
      is_chat_between_cache = [((2, 1), True), ((1, 2), True)],
      get_chat_id_cache = [((1, 2), 2)]\<rparr> \<and>
   delete_chat (Some [1, 2]) None
       \<lparr>chats = [\<lparr>chat_id = 1, user1_id = 3, user2_id = 4\<rparr>,
                 \<lparr>chat_id = 2, user1_id = 1, user2_id = 2\<rparr>],
        committed = [\<lparr>chat_id = 1, user1_id = 3, user2_id = 4\<rparr>],
        is_chat_between_cache = [((2, 1), True), ((1, 2), True)],
        get_chat_id_cache = [((1, 2), 2)]\<rparr> =
     (Inr (), boot [\<lparr>chat_id = 1, user1_id = 3, user2_id = 4\<rparr>]) \<and>
   fst (is_chat_between 1 2 (boot [\<lparr>chat_id = 1, user1_id = 3, user2_id = 4\<rparr>])) = False \<and>
   fst (is_chat_between 2 1 (boot [\<lparr>chat_id = 1, user1_id = 3, user2_id = 4\<rparr>])) = False \<and>
   fst (get_chat_id_by_users_ids 1 2 (boot [\<lparr>chat_id = 1, user1_id = 3, user2_id = 4\<rparr>])) =
     Inl ChatNotFoundByIndexesError"
proof -
  let ?cs = "[CreateChat 3 4, Commit]"
  let ?rs = "[IsChatBetween 1 2, IsChatBetween 2 1, GetChatIdByUsersIds 1 2]"
  let ?mid = "snd (create_chat 1 2 (run ?cs (boot [])))"
  let ?final = "boot [\<lparr>chat_id = 1, user1_id = 3, user2_id = 4\<rparr>]"
  have h0: "Rollback \<notin> set ?cs" by simp
  have h1: "(min 1 2, max 1 2) \<notin> pair_of ` set (chats (run ?cs (boot [])))"
    by (simp add: chat_defs)
  have h2: "(1::int) \<noteq> 2" by simp
  have h3: "create_chat 1 2 (run ?cs (boot [])) = (Inr (), ?mid)"
    by (simp add: chat_defs)
  have h4: "Rollback \<notin> set ?rs" by simp
  have mid: "run ?rs ?mid =
     \<lparr>chats = [\<lparr>chat_id = 1, user1_id = 3, user2_id = 4\<rparr>,
               \<lparr>chat_id = 2, user1_id = 1, user2_id = 2\<rparr>],
      committed = [\<lparr>chat_id = 1, user1_id = 3, user2_id = 4\<rparr>],
      is_chat_between_cache = [((2, 1), True), ((1, 2), True)],
      get_chat_id_cache = [((1, 2), 2)]\<rparr>"
    by (simp add: chat_defs)
  have h5: "delete_chat (Some [1, 2]) None (run ?rs ?mid) = (Inr (), ?final)"
    unfolding mid by (simp add: chat_defs)
  note cycle = delete_absent_and_create_delete_cycle [OF h0 refl, where a = 1 and b = 2
      and rows = "[]" and rs = ?rs, of ?mid ?final]
  from conjunct1 [OF cycle, rule_format, OF h1]
  have r1: "delete_chat (Some [1, 2]) None (run ?cs (boot [])) =
          (Inl ChatNotFoundByIndexesError, run ?cs (boot []))" .
  from conjunct2 [OF cycle, rule_format, OF conjI [OF h2 conjI [OF h3 conjI [OF h4 disjI1 [OF h5]]]]]
  have r2: "fst (is_chat_between 1 2 ?final) = False \<and> fst (is_chat_between 2 1 ?final) = False \<and>
        fst (get_chat_id_by_users_ids 1 2 ?final) = Inl ChatNotFoundByIndexesError"
    by simp
  have tbl: "chats (run ?cs (boot [])) = [\<lparr>chat_id = 1, user1_id = 3, user2_id = 4\<rparr>]"
    by (simp add: chat_defs)
  from h5 have h5': "delete_chat (Some [1, 2]) None
       \<lparr>chats = [\<lparr>chat_id = 1, user1_id = 3, user2_id = 4\<rparr>,
                 \<lparr>chat_id = 2, user1_id = 1, user2_id = 2\<rparr>],
        committed = [\<lparr>chat_id = 1, user1_id = 3, user2_id = 4\<rparr>],
        is_chat_between_cache = [((2, 1), True), ((1, 2), True)],
        get_chat_id_cache = [((1, 2), 2)]\<rparr> = (Inr (), ?final)"
    unfolding mid .
  from r1 r2 tbl mid h5' show ?thesis by (simp add: pair_of_def)
qed

subsection \<open>C10: deleting by a chat id that is in no row\<close>




section \<open>Tokens\<close>



text \<open>The lookup by primary key finds every row of a table whose ids are unique.\<close>

lemma query_get_stored:
  "u \<in> set table \<Longrightarrow> distinct (map user_id table) \<Longrightarrow> query_get table (user_id u) = Some u"
  unfolding query_get_def
proof (induction table)
  case Nil
  then show ?case by simp
next
  case (Cons v table)
  show ?case
  proof (cases "u = v")
    case True
    then show ?thesis by simp
  next
    case False
    with Cons.prems have "u \<in> set table" and "user_id v \<noteq> user_id u" by auto
    with Cons show ?thesis by simp
  qed
qed

lemma get_user_by_id_stored:
  "u \<in> set table \<Longrightarrow> distinct (map user_id table) \<Longrightarrow> get_user_by_id table (user_id u) = Inr u"
  by (simp add: get_user_by_id_def query_get_stored)


text \<open>The definitions a run of the token methods on concrete values unfolds.\<close>

lemmas token_defs =
  get_user_by_reset_password_token_def get_reset_password_token_def
  get_user_by_authentication_token_def get_authentication_token_def
  get_user_by_id_def query_get_def truthy_def loads_def dumps_def sign_def corrupted_def
  is_BadSignature_def Let_def

subsection \<open>C4: the round trip of a token\<close>




subsection \<open>C9: the two token classes\<close>




section \<open>Views\<close>

subsection \<open>C5: the reset-password view\<close>

text \<open>
  Claim C5 fails on the code for POST requests. For an expired token \<open>ResetPasswordView.get\<close>
  renders the expired page and for a malformed token it aborts with 404, but
  \<open>ResetPasswordView.post\<close> lets \<open>SignatureExpired\<close> and \<open>BadSignature\<close> leave the view
  unhandled, whatever the environment \<open>env\<close> is.
\<close>
theorem reset_password_post_raises:
  "ResetPasswordView_get a_config [user1] 2 (get_reset_password_token a_config user1 (Some 1) 0) =
     Inr (Rendered ''authentication/reset_password_expired.html'') \<and>
   ResetPasswordView_get a_config [user1] 2 (Malformed ''invalid_token'') = Inr (Aborted 404) \<and>
   ResetPasswordView_post env a_config 2 (get_reset_password_token a_config user1 (Some 1) 0)
       ''New password'' ''New password'' \<lparr>users_table = [user1], flashed = []\<rparr> =
     (Inl SignatureExpired, \<lparr>users_table = [user1], flashed = []\<rparr>) \<and>
   ResetPasswordView_post env a_config 2 (Malformed ''invalid_token'')
       ''New password'' ''New password'' \<lparr>users_table = [user1], flashed = []\<rparr> =
     (Inl BadSignature, \<lparr>users_table = [user1], flashed = []\<rparr>)"
  by (simp add: ResetPasswordView_get_def ResetPasswordView_post_def token_defs)

text \<open>
  The outcomes of the two handlers in general: GET answers an expired token with the
  expired page and every other bad signature with 404, POST passes on whatever the
  resolution of the token raises, and POST answers only for a token that resolves to a
  user.
\<close>

lemma ResetPasswordView_get_expired:
  "get_user_by_reset_password_token cfg table now t = Inl SignatureExpired \<Longrightarrow>
   ResetPasswordView_get cfg table now t =
     Inr (Rendered ''authentication/reset_password_expired.html'')"
  by (simp add: ResetPasswordView_get_def)

lemma ResetPasswordView_get_invalid:
  "get_user_by_reset_password_token cfg table now t = Inl e \<Longrightarrow>
   e = BadSignature \<or> e = BadHeader \<Longrightarrow>
   ResetPasswordView_get cfg table now t = Inr (Aborted 404)"
  by (auto simp: ResetPasswordView_get_def is_BadSignature_def)

lemma ResetPasswordView_post_raises:
  "get_user_by_reset_password_token cfg (users_table ws) now t = Inl e \<Longrightarrow>
   ResetPasswordView_post env cfg now t password1 password2 ws = (Inl e, ws)"
  by (simp add: ResetPasswordView_post_def)

lemma ResetPasswordView_post_reaches_validation:
  "fst (ResetPasswordView_post env cfg now t password1 password2 ws) = Inr r \<Longrightarrow>
   \<exists>u. get_user_by_reset_password_token cfg (users_table ws) now t = Inr u"
  by (auto simp: ResetPasswordView_post_def split: sum.splits)

subsection \<open>C7: registration\<close>

lemma raised_None: "raised rs = None \<longleftrightarrow> (\<forall>r \<in> set rs. r = None)"
  by (induction rs rule: raised.induct) auto

lemma users_table_flash: "users_table (flash m ws) = users_table ws"
  by (simp add: flash_def)

text \<open>
  Claim C7. Every \<open>RegisterView.post\<close> that does not end in the redirect to the login
  leaves the users table as it was; and a registration with an email or a username that
  a stored user has, with two passwords that differ, or with a password shorter than the
  minimum, is answered with the registration page again, the users table unchanged.
\<close>
theorem register_failure_leaves_store:
  "(fst (RegisterView_post env now form ws) \<noteq> Redirected ''authentication.login'' \<longrightarrow>
      users_table (snd (RegisterView_post env now form ws)) = users_table ws) \<and>
   ((\<exists>u \<in> set (users_table ws). email u = form_email form) \<or>
    (\<exists>u \<in> set (users_table ws). username u = form_username form) \<or>
    form_password1 form \<noteq> form_password2 form \<or>
    length (form_password2 form) < password_min_length env \<longrightarrow>
      fst (RegisterView_post env now form ws) = Rendered ''authentication/register.html'' \<and>
      users_table (snd (RegisterView_post env now form ws)) = users_table ws)"
proof -
  let ?checks = "[validate_email env (form_email form),
              validate_length env (form_name form) 3 25
                ''Please, input name with a length between 3 and 25 chars'',
              validate_equal_passwords (form_password1 form) (form_password2 form),
              validate_password_length env (form_password2 form)]"
  show ?thesis
  proof (cases "raised ?checks")
    case (Some m)
    then show ?thesis by (simp add: RegisterView_post_def users_table_flash)
  next
    case None
    then have "validate_equal_passwords (form_password1 form) (form_password2 form) = None"
      and "validate_password_length env (form_password2 form) = None"
      by (simp_all add: raised_None)
    then have ok: "form_password1 form = form_password2 form"
      "\<not> length (form_password2 form) < password_min_length env"
      by (simp_all add: validate_equal_passwords_def validate_password_length_def
          split: if_splits)
    have dup_e: "find (\<lambda>u. email u = form_email form) (users_table ws) \<noteq> None \<longleftrightarrow>
                 (\<exists>u \<in> set (users_table ws). email u = form_email form)"
      by (auto simp: find_None_iff)
    have dup_u: "find (\<lambda>u. username u = form_username form) (users_table ws) \<noteq> None \<longleftrightarrow>
                 (\<exists>u \<in> set (users_table ws). username u = form_username form)"
      by (auto simp: find_None_iff)
    show ?thesis
      unfolding dup_e [symmetric] dup_u [symmetric]
      using None ok by (simp add: RegisterView_post_def users_table_flash)
  qed
qed

text \<open>The statement of C7 for a registration with the email of the stored user.\<close>
theorem register_failure_leaves_store_witness:
  "(\<exists>u \<in> set (users_table \<lparr>users_table = [user1], flashed = []\<rparr>).
      email u = form_email taken_email_form) \<and>
   RegisterView_post an_env 5 taken_email_form \<lparr>users_table = [user1], flashed = []\<rparr> =
     (Rendered ''authentication/register.html'',
      \<lparr>users_table = [user1], flashed = [''User with such an email has been registered!'']\<rparr>)"
proof -
  let ?env = an_env
  let ?form = taken_email_form
  let ?ws = "\<lparr>users_table = [user1], flashed = []\<rparr>"
  have h: "\<exists>u \<in> set (users_table ?ws). email u = form_email ?form"
    by simp
  have r: "RegisterView_post ?env 5 ?form ?ws =
     (Rendered ''authentication/register.html'',
      \<lparr>users_table = [user1], flashed = [''User with such an email has been registered!'']\<rparr>)"
    by (simp add: RegisterView_post_def validate_equal_passwords_def
        validate_password_length_def flash_def)
  from register_failure_leaves_store [of ?env 5 ?form ?ws] h r
  show ?thesis by simp
qed

subsection \<open>C8: the current user of a request\<close>

text \<open>
  Claim C8 as it is written fails for a session that holds the id of no stored user:
  \<open>recognize_logged_in_user\<close> raises \<open>UserNotFoundByIndexError\<close>, on the empty table and on
  the table of the two users alike.
\<close>
theorem recognize_stale_id_counterexample:
  "recognize_logged_in_user [] [''current_user_id'' \<mapsto> 1] = Inl UserNotFoundByIndexError \<and>
   recognize_logged_in_user [user1, user2] [''current_user_id'' \<mapsto> 3] =
     Inl UserNotFoundByIndexError"
  by (simp add: recognize_logged_in_user_def get_user_by_id_def query_get_def)

text \<open>
  Claim C8, amended. For a session without \<open>current_user_id\<close>, resolving the current user
  raises nothing and gives \<open>None\<close>; for a session whose \<open>current_user_id\<close> is the id of a
  user \<open>u\<close> in the users table (whose ids are unique), it raises nothing and gives \<open>u\<close>.
\<close>
theorem recognize_logged_in_user_cases:
  "(session ''current_user_id'' = None \<longrightarrow>
      recognize_logged_in_user table session = Inr None) \<and>
   (u \<in> set table \<and> distinct (map user_id table) \<and>
    session ''current_user_id'' = Some (user_id u) \<longrightarrow>
      recognize_logged_in_user table session = Inr (Some u))"
  by (simp add: recognize_logged_in_user_def get_user_by_id_stored)

text \<open>
  The amended C8 on the table of the two users, for an empty session and for the session
  of the second user.
\<close>
theorem recognize_logged_in_user_cases_witness:
  "recognize_logged_in_user [user1, user2] Map.empty = Inr None \<and>
   user2 \<in> set [user1, user2] \<and> distinct (map user_id [user1, user2]) \<and>
   [''current_user_id'' \<mapsto> 2] ''current_user_id'' = Some (user_id user2) \<and>
   recognize_logged_in_user [user1, user2] [''current_user_id'' \<mapsto> 2] = Inr (Some user2)"
proof -
  have a: "Map.empty ''current_user_id'' = (None :: int option)" by simp
  have b: "user2 \<in> set [user1, user2] \<and> distinct (map user_id [user1, user2]) \<and>
           [''current_user_id'' \<mapsto> 2] ''current_user_id'' = Some (user_id user2)"
    by simp
  from conjunct1 [OF recognize_logged_in_user_cases [where session = Map.empty
      and table = "[user1, user2]"], rule_format, OF a]
  have 1: "recognize_logged_in_user [user1, user2] Map.empty = Inr None" .
  from conjunct2 [OF recognize_logged_in_user_cases
      [where session = "[''current_user_id'' \<mapsto> 2]" and table = "[user1, user2]"
        and u = user2], rule_format, OF b]
  have 2: "recognize_logged_in_user [user1, user2] [''current_user_id'' \<mapsto> 2] =
             Inr (Some user2)" .
  from 1 2 b show ?thesis by simp
qed

end
